theory Spec2Isabelle
  imports Complex_Main
begin

section \<open>Text normalization (elasticsearch.py, preprocess)\<close>

text \<open>
  A Python \<^verbatim>\<open>str\<close> is a sequence of Unicode code points; it is modelled as a list of
  natural numbers, one per code point.
\<close>

type_synonym ustr = "nat list"

text \<open>
  The characters that the regular expression class \<^verbatim>\<open>\s\<close> matches on a \<^verbatim>\<open>str\<close>
  pattern, which are also the characters \<^verbatim>\<open>str.strip()\<close> removes: TAB to CR,
  FS to US and SPACE, NEL, NBSP, U+1680, U+2000 to U+200A, U+2028, U+2029, U+202F, U+205F
  and U+3000.
\<close>

definition is_space :: "nat \<Rightarrow> bool" where
  "is_space c \<longleftrightarrow>
     (9 \<le> c \<and> c \<le> 13) \<or> (28 \<le> c \<and> c \<le> 32) \<or> c = 133 \<or> c = 160 \<or> c = 5760 \<or>
     (8192 \<le> c \<and> c \<le> 8202) \<or> c = 8232 \<or> c = 8233 \<or> c = 8239 \<or> c = 8287 \<or> c = 12288"

text \<open>
  The character class of the fourth substitution, in the order of the source. The
  pattern is two adjacent string literals: the raw string ends at the first ASCII
  double quote, so the double quote itself is not in the class. The members are
  \<^verbatim>\<open>A-Z a-z 0-9\<close>, the Hangul syllables U+AC00 to U+D7A3, \<^verbatim>\<open>. ? ! , ( ) ~\<close>,
  the curly quotes U+2018, U+2019, U+201C, U+201D, \<^verbatim>\<open>: % &\<close>, the brackets U+300A, U+300B,
  U+3008, U+3009, the apostrophe, U+321C, the middle dot U+00B7, the hyphen, \<^verbatim>\<open>+\<close>,
  \<^verbatim>\<open>\s\<close> and the ideographs U+4E00 to U+9FA5.
\<close>

definition allowed :: "nat \<Rightarrow> bool" where
  "allowed c \<longleftrightarrow>
     (65 \<le> c \<and> c \<le> 90) \<or> (97 \<le> c \<and> c \<le> 122) \<or> (48 \<le> c \<and> c \<le> 57) \<or>
     (44032 \<le> c \<and> c \<le> 55203) \<or>
     c = 46 \<or> c = 63 \<or> c = 33 \<or> c = 44 \<or> c = 40 \<or> c = 41 \<or> c = 126 \<or>
     c = 8216 \<or> c = 8217 \<or> c = 8220 \<or> c = 8221 \<or>
     c = 58 \<or> c = 37 \<or> c = 38 \<or>
     c = 12298 \<or> c = 12299 \<or> c = 12296 \<or> c = 12297 \<or>
     c = 39 \<or> c = 12828 \<or> c = 183 \<or> c = 45 \<or> c = 43 \<or>
     is_space c \<or> (19968 \<le> c \<and> c \<le> 40869)"

text \<open>\<^verbatim>\<open>re.sub(r"\n", " ", text)\<close>: every line feed becomes a space.\<close>

definition sub_newline :: "ustr \<Rightarrow> ustr" where
  "sub_newline text = map (\<lambda>c. if c = 10 then 32 else c) text"

text \<open>
  \<^verbatim>\<open>re.sub(r"\\n", " ", text)\<close>: every occurrence of a backslash followed by the
  letter n becomes one space, scanning from the left.
\<close>

fun sub_backslash_n :: "ustr \<Rightarrow> ustr" where
  "sub_backslash_n (a # b # cs) =
     (if a = 92 \<and> b = 110 then 32 # sub_backslash_n cs else a # sub_backslash_n (b # cs))"
| "sub_backslash_n cs = cs"

text \<open>\<^verbatim>\<open>re.sub(r"#", " ", text)\<close>.\<close>

definition sub_hash :: "ustr \<Rightarrow> ustr" where
  "sub_hash text = map (\<lambda>c. if c = 35 then 32 else c) text"

text \<open>The fourth substitution deletes every character outside the class.\<close>

definition sub_disallowed :: "ustr \<Rightarrow> ustr" where
  "sub_disallowed text = filter allowed text"

text \<open>\<^verbatim>\<open>re.sub(r"\s+", " ", text)\<close>: every maximal run of whitespace becomes one space.\<close>

function sub_spaces :: "ustr \<Rightarrow> ustr" where
  "sub_spaces [] = []"
| "sub_spaces (c # cs) =
     (if is_space c then 32 # sub_spaces (dropWhile is_space cs) else c # sub_spaces cs)"
  by pat_completeness auto
termination
  by (relation "measure length") (auto simp: le_imp_less_Suc length_dropWhile_le)

text \<open>\<^verbatim>\<open>str.strip()\<close>: whitespace is removed from both ends.\<close>

definition strip :: "ustr \<Rightarrow> ustr" where
  "strip text = rev (dropWhile is_space (rev (dropWhile is_space text)))"

definition preprocess :: "ustr \<Rightarrow> ustr" where
  "preprocess text =
     strip (sub_spaces (sub_disallowed (sub_hash (sub_backslash_n (sub_newline text)))))"

section \<open>Python lists and errors\<close>

text \<open>The exceptions the modelled code can raise; a result is \<open>Inl\<close> of one or \<open>Inr\<close> of a value.\<close>

datatype error =
  AssertionError | IndexError | AttributeError | NotFoundError | ValueError | FileNotFoundError

text \<open>
  \<^verbatim>\<open>xs[i]\<close>: an index from 0 to the length reads from the front, an index from
  minus the length to -1 reads from the back, any other index raises.
\<close>

definition py_get :: "'a list \<Rightarrow> int \<Rightarrow> error + 'a" where
  "py_get xs i =
     (if 0 \<le> i \<and> i < int (length xs) then Inr (xs ! nat i)
      else if i < 0 \<and> - int (length xs) \<le> i then Inr (xs ! nat (int (length xs) + i))
      else Inl IndexError)"

text \<open>\<^verbatim>\<open>xs[:k]\<close>: the first k elements, or all but the last \<open>-k\<close> when k is negative.\<close>

definition py_take :: "int \<Rightarrow> 'a list \<Rightarrow> 'a list" where
  "py_take k xs = (if 0 \<le> k then take (nat k) xs else take (length xs - nat (- k)) xs)"

text \<open>\<^verbatim>\<open>range(n)\<close>, empty for a negative n.\<close>

definition py_range :: "int \<Rightarrow> int list" where
  "py_range n = map int [0..<nat n]"

text \<open>A list comprehension whose element expression can raise: the first error wins.\<close>

fun comprehension :: "('a \<Rightarrow> error + 'b) \<Rightarrow> 'a list \<Rightarrow> error + 'b list" where
  "comprehension f [] = Inr []"
| "comprehension f (x # xs) =
     (case f x of
        Inl e \<Rightarrow> Inl e
      | Inr y \<Rightarrow> (case comprehension f xs of Inl e \<Rightarrow> Inl e | Inr ys \<Rightarrow> Inr (y # ys)))"

section \<open>Corpus loader (elasticsearch.py load_json, retrieval.py SparseRetrieval.__init__)\<close>

text \<open>
  \<^verbatim>\<open>list(dict.fromkeys(keys))\<close>: the keys are inserted one by one into an
  insertion-ordered dictionary; a key already present keeps its place.
\<close>

definition dict_fromkeys :: "'a list \<Rightarrow> 'a list" where
  "dict_fromkeys keys = fold (\<lambda>k d. if k \<in> set d then d else d @ [k]) keys []"

text \<open>
  The loaded JSON object, as its items in file order: the key and the \<^verbatim>\<open>"text"\<close>
  field of the value.
\<close>

type_synonym wiki = "(string \<times> ustr) list"

record document =
  document_text :: ustr

definition load_json :: "wiki \<Rightarrow> document list" where
  "load_json wiki =
     (let texts = dict_fromkeys (map snd wiki);
          texts = map preprocess texts
      in map (\<lambda>i. \<lparr>document_text = texts ! i\<rparr>) [0..<length texts])"

text \<open>
  The reading of the specification: the texts are normalized first, and equal normalized
  texts collapse to their first occurrence.
\<close>

fun first_seen :: "'a list \<Rightarrow> 'a list" where
  "first_seen [] = []"
| "first_seen (x # xs) = x # first_seen (removeAll x xs)"

definition spec_corpus :: "wiki \<Rightarrow> ustr list" where
  "spec_corpus wiki = first_seen (map (\<lambda>kv. preprocess (snd kv)) wiki)"

section \<open>The vector strategy (retrieval.py, class SparseRetrieval)\<close>

text \<open>
  The vectorizer and the embedding matrix are objects of external libraries; \<open>'o\<close> is
  the type of such objects. What the libraries compute is a parameter of each operation:
  \<open>fit_transform\<close> fits the vectorizer on the corpus and returns the fitted vectorizer
  with the document matrix (or raises), \<open>transform\<close> gives the row of one query, and
  \<open>toarray\<close> gives the dense rows of the document matrix, one per document (the source
  multiplies the sparse matrices and makes the product dense). Scores are floats in the
  source; the model computes them in the reals, and a row shorter than another is
  multiplied up to its length (the library's rows all have the vocabulary's length).
\<close>

record 'o SparseRetrieval =
  data_path :: string
  contexts :: "ustr list"
  ids :: "nat list"
  tfidfv :: 'o
  p_embedding :: "'o option"

text \<open>The constructor, from the loaded JSON object and a fresh vectorizer.\<close>

definition SparseRetrieval_init :: "'o \<Rightarrow> string \<Rightarrow> wiki \<Rightarrow> 'o SparseRetrieval" where
  "SparseRetrieval_init vectorizer path wiki =
     (let cs = dict_fromkeys (map snd wiki)
      in \<lparr>data_path = path, contexts = cs, ids = [0..<length cs],
          tfidfv = vectorizer, p_embedding = None\<rparr>)"







text \<open>\<^verbatim>\<open>np.sum\<close> of a matrix: the sum of all its entries.\<close>

definition np_sum :: "real list list \<Rightarrow> real" where
  "np_sum m = sum_list (map sum_list m)"

text \<open>\<^verbatim>\<open>query_vec * p_embedding.T\<close>: the dot product of every query row with every document row.\<close>

definition dot :: "real list \<Rightarrow> real list \<Rightarrow> real" where
  "dot u v = sum_list (map (\<lambda>(a, b). a * b) (zip u v))"

definition matmul_T :: "real list list \<Rightarrow> real list list \<Rightarrow> real list list" where
  "matmul_T q p = map (\<lambda>u. map (dot u) p) q"

text \<open>
  \<^verbatim>\<open>np.argsort\<close> of a vector: the indices in ascending order of their entries. The
  library does not promise an order among equal entries; the model takes the ascending
  index order, and both ranking operations share it.
\<close>

definition argsort :: "real list \<Rightarrow> nat list" where
  "argsort xs = sort_key (\<lambda>i. xs ! i) [0..<length xs]"

text \<open>
  \<^verbatim>\<open>result.squeeze()\<close> of the result matrix of one query, given by its only row:
  every axis of length one is dropped, so a row of one entry (a corpus of one document)
  becomes a zero-dimensional array and any other row a vector.
\<close>

datatype ndarray = Arr0 real | Arr1 "real list"

definition squeeze :: "real list \<Rightarrow> ndarray" where
  "squeeze row = (case row of [x] \<Rightarrow> Arr0 x | _ \<Rightarrow> Arr1 row)"

text \<open>\<^verbatim>\<open>np.argsort\<close> flattens a zero-dimensional array to one entry.\<close>

definition np_argsort :: "ndarray \<Rightarrow> nat list" where
  "np_argsort a = (case a of Arr0 x \<Rightarrow> argsort [x] | Arr1 xs \<Rightarrow> argsort xs)"

text \<open>
  \<^verbatim>\<open>a[index_array]\<close>: a zero-dimensional array cannot be indexed and raises; a vector
  gives the entries at the indices.
\<close>

definition np_index :: "ndarray \<Rightarrow> nat list \<Rightarrow> error + real list" where
  "np_index a idx =
     (case a of
        Arr0 x \<Rightarrow> Inl IndexError
      | Arr1 xs \<Rightarrow> comprehension (\<lambda>i. py_get xs (int i)) idx)"

definition Sparse_get_relevant_doc ::
  "('o \<Rightarrow> string \<Rightarrow> real list) \<Rightarrow> ('o \<Rightarrow> real list list) \<Rightarrow> 'o SparseRetrieval \<Rightarrow>
     string \<Rightarrow> int \<Rightarrow> error + (real list \<times> nat list)" where
  "Sparse_get_relevant_doc transform toarray self query k =
     (let query_vec = [transform (tfidfv self) query]
      in if \<not> (np_sum query_vec \<noteq> 0) then Inl AssertionError
         else
           (case p_embedding self of
              None \<Rightarrow> Inl AttributeError
            | Some emb \<Rightarrow>
                (let result = matmul_T query_vec (toarray emb);
                     squeezed = squeeze (hd result);
                     sorted_result = rev (np_argsort squeezed)
                 in case np_index squeezed sorted_result of
                      Inl err \<Rightarrow> Inl err
                    | Inr scores \<Rightarrow> Inr (py_take k scores, py_take k sorted_result))))"

definition Sparse_get_relevant_doc_bulk ::
  "('o \<Rightarrow> string \<Rightarrow> real list) \<Rightarrow> ('o \<Rightarrow> real list list) \<Rightarrow> 'o SparseRetrieval \<Rightarrow>
     string list \<Rightarrow> int \<Rightarrow> error + (real list list \<times> nat list list)" where
  "Sparse_get_relevant_doc_bulk transform toarray self queries k =
     (let query_vec = map (transform (tfidfv self)) queries
      in if \<not> (np_sum query_vec \<noteq> 0) then Inl AssertionError
         else
           (case p_embedding self of
              None \<Rightarrow> Inl AttributeError
            | Some emb \<Rightarrow>
                (let result = matmul_T query_vec (toarray emb)
                 in case comprehension
                           (\<lambda>row. let sorted_result = rev (argsort row)
                                  in case np_index (Arr1 row) sorted_result of
                                       Inl err \<Rightarrow> Inl err
                                     | Inr scores \<Rightarrow>
                                         Inr (py_take k scores, py_take k sorted_result))
                           result of
                      Inl err \<Rightarrow> Inl err
                    | Inr rows \<Rightarrow> Inr (map fst rows, map snd rows))))"

text \<open>
  The number of documents whose similarity to the query is not zero, the count the
  specification gives for the length of a ranking.
\<close>

definition nonzero_similarity ::
  "('o \<Rightarrow> string \<Rightarrow> real list) \<Rightarrow> ('o \<Rightarrow> real list list) \<Rightarrow> 'o SparseRetrieval \<Rightarrow> string \<Rightarrow> nat" where
  "nonzero_similarity transform toarray self query =
     (case p_embedding self of
        None \<Rightarrow> 0
      | Some emb \<Rightarrow>
          length (filter (\<lambda>d. dot (transform (tfidfv self) query) d \<noteq> 0) (toarray emb)))"

text \<open>Scores in non-increasing order.\<close>

definition non_increasing :: "real list \<Rightarrow> bool" where
  "non_increasing xs = sorted (rev xs)"

section \<open>The document store (elasticsearch.py)\<close>

text \<open>
  The state of the external store that the document operations read and change: every
  index holds documents by id. Reading a missing document, or deleting one, raises.
\<close>

type_synonym es_store = "string \<rightharpoonup> (string \<rightharpoonup> document)"

definition es_get :: "es_store \<Rightarrow> string \<Rightarrow> string \<Rightarrow> error + document" where
  "es_get es index_name doc_id =
     (case es index_name of
        None \<Rightarrow> Inl NotFoundError
      | Some docs \<Rightarrow> (case docs doc_id of None \<Rightarrow> Inl NotFoundError | Some d \<Rightarrow> Inr d))"

definition es_exists :: "es_store \<Rightarrow> string \<Rightarrow> string \<Rightarrow> bool" where
  "es_exists es index_name doc_id =
     (case es index_name of
        None \<Rightarrow> False
      | Some docs \<Rightarrow> (case docs doc_id of None \<Rightarrow> False | Some _ \<Rightarrow> True))"

definition es_delete :: "es_store \<Rightarrow> string \<Rightarrow> string \<Rightarrow> error + es_store" where
  "es_delete es index_name doc_id =
     (case es index_name of
        None \<Rightarrow> Inl NotFoundError
      | Some docs \<Rightarrow>
          (case docs doc_id of
             None \<Rightarrow> Inl NotFoundError
           | Some _ \<Rightarrow> Inr (es(index_name \<mapsto> docs(doc_id := None)))))"

definition delete_doc :: "es_store \<Rightarrow> string \<Rightarrow> string \<Rightarrow> error + (es_store \<times> ustr)" where
  "delete_doc es index_name doc_id =
     (case es_get es index_name doc_id of
        Inl err \<Rightarrow> Inl err
      | Inr deleted_doc \<Rightarrow>
          (if es_exists es index_name doc_id then
             (case es_delete es index_name doc_id of
                Inl err \<Rightarrow> Inl err
              | Inr es' \<Rightarrow> Inr (es', document_text deleted_doc))
           else Inr (es, document_text deleted_doc)))"

section \<open>The remote-index strategy (retrieval.py, class ElasticRetrieval)\<close>

text \<open>
  A hit of a search response: \<^verbatim>\<open>_id\<close>, \<^verbatim>\<open>_score\<close> and the
  \<^verbatim>\<open>document_text\<close> of \<^verbatim>\<open>_source\<close>.
\<close>

record hit =
  hit_id :: string
  hit_score :: real
  hit_source :: document

text \<open>
  The ranking of the store is opaque: the client is the function that answers a match
  query on an index, for a question and a size, with the list \<^verbatim>\<open>res['hits']['hits']\<close>.
\<close>

type_synonym es_client = "string \<Rightarrow> string \<Rightarrow> int \<Rightarrow> hit list"

definition es_search :: "es_client \<Rightarrow> string \<Rightarrow> string \<Rightarrow> int \<Rightarrow> hit list" where
  "es_search es index_name question topk = es index_name question topk"

record ElasticRetrieval =
  es :: es_client
  index_name :: string

definition Elastic_get_relevant_doc ::
  "ElasticRetrieval \<Rightarrow> string \<Rightarrow> int \<Rightarrow> real list \<times> string list \<times> hit list" where
  "Elastic_get_relevant_doc self query k =
     (let docs = es_search (es self) (index_name self) query k;
          (doc_score, doc_index) =
             fold (\<lambda>hit (doc_score, doc_index).
                     (doc_score @ [hit_score hit], doc_index @ [hit_id hit]))
                  docs ([], [])
      in (doc_score, doc_index, docs))"

text \<open>
  The elements of \<^verbatim>\<open>doc_indices\<close> in the bulk operation: the list receives both
  single ids and lists of ids.
\<close>

datatype id_entry = OneId string | IdList "string list"

definition Elastic_get_relevant_doc_bulk ::
  "ElasticRetrieval \<Rightarrow> string list \<Rightarrow> int \<Rightarrow> real list list \<times> id_entry list \<times> hit list list" where
  "Elastic_get_relevant_doc_bulk self queries k =
     (let (total_docs, doc_scores, doc_indices) =
            fold (\<lambda>query (total_docs, doc_scores, doc_indices).
                    let doc_index = [];
                        docs = es_search (es self) (index_name self) query k;
                        (doc_score, doc_indices) =
                           fold (\<lambda>hit (doc_score, doc_indices).
                                   (doc_score @ [hit_score hit], doc_indices @ [OneId (hit_id hit)]))
                                docs ([], doc_indices)
                    in (total_docs @ [docs], doc_scores @ [doc_score],
                        doc_indices @ [IdList doc_index]))
                 queries ([], [], [])
      in (doc_scores, doc_indices, total_docs))"

text \<open>The branch of \<^verbatim>\<open>retrieve\<close> for a single query string.\<close>

definition Elastic_retrieve ::
  "ElasticRetrieval \<Rightarrow> string \<Rightarrow> int \<Rightarrow> error + (real list \<times> string list)" where
  "Elastic_retrieve self query topk =
     (let (doc_scores, doc_indices, docs) = Elastic_get_relevant_doc self query topk
      in case comprehension (\<lambda>i. py_get doc_indices i) (py_range topk) of
           Inl err \<Rightarrow> Inl err
         | Inr picked \<Rightarrow> Inr (doc_scores, picked))"

text \<open>
  An example of a query dataset, with the optional ground-truth columns, and a record of
  the table that \<^verbatim>\<open>retrieve_split\<close> builds.
\<close>

record example =
  ex_question :: string
  ex_id :: string
  ex_context :: "ustr option"
  ex_answers :: "ustr list option"

record split_row =
  row_question :: string
  row_id :: id_entry
  row_context_id :: id_entry
  row_context :: ustr
  row_original_context :: "ustr option"
  row_answers :: "ustr list option"

text \<open>The record built for the i-th retrieved context of an example.\<close>

definition split_tmp :: "example \<Rightarrow> id_entry \<Rightarrow> ustr \<Rightarrow> split_row" where
  "split_tmp ex doc_id ctx =
     (let tmp = \<lparr>row_question = ex_question ex, row_id = doc_id, row_context_id = doc_id,
                 row_context = ctx, row_original_context = None, row_answers = None\<rparr>
      in if ex_context ex \<noteq> None \<and> ex_answers ex \<noteq> None
         then tmp\<lparr>row_original_context := ex_context ex, row_answers := ex_answers ex\<rparr>
         else tmp)"

text \<open>
  The loop over the examples: its body ends with the \<^verbatim>\<open>return\<close>, so the first
  example decides the result; a loop that never runs falls through and the operation
  returns \<^verbatim>\<open>None\<close>.
\<close>

fun retrieve_split_loop ::
  "id_entry list \<Rightarrow> hit list list \<Rightarrow> int \<Rightarrow> (nat \<times> example) list \<Rightarrow> split_row list \<Rightarrow>
     error + split_row list option" where
  "retrieve_split_loop doc_indices docs topk [] acc = Inr None"
| "retrieve_split_loop doc_indices docs topk ((idx, ex) # rest) acc =
     (case py_get docs (int idx) of
        Inl err \<Rightarrow> Inl err
      | Inr hits \<Rightarrow>
          (case comprehension (\<lambda>i. map_sum id (\<lambda>h. document_text (hit_source h)) (py_get hits i))
                  (py_range (min topk (int (length hits)))) of
             Inl err \<Rightarrow> Inl err
           | Inr retrieved_context \<Rightarrow>
               (case comprehension
                       (\<lambda>(i, ctx). map_sum id (\<lambda>doc_id. split_tmp ex doc_id ctx)
                                     (py_get doc_indices (int i)))
                       (enumerate 0 retrieved_context) of
                  Inl err \<Rightarrow> Inl err
                | Inr rows \<Rightarrow> Inr (Some (acc @ rows)))))"

definition Elastic_retrieve_split ::
  "ElasticRetrieval \<Rightarrow> example list \<Rightarrow> int \<Rightarrow> error + split_row list option" where
  "Elastic_retrieve_split self query_or_dataset topk =
     (let (doc_scores, doc_indices, docs) =
            Elastic_get_relevant_doc_bulk self (map ex_question query_or_dataset) topk
      in retrieve_split_loop doc_indices docs topk (enumerate 0 query_or_dataset) [])"

section \<open>Auxiliary predicates and example inputs\<close>

text \<open>
  A text whose whitespace is normalized: its only whitespace character is the space, and
  no space is followed by whitespace.
\<close>

fun single_spaced :: "ustr \<Rightarrow> bool" where
  "single_spaced [] = True"
| "single_spaced [c] = (if is_space c then c = 32 else True)"
| "single_spaced (a # b # cs) =
     ((if is_space a then a = 32 \<and> \<not> is_space b else True) \<and> single_spaced (b # cs))"

text \<open>A store with one index that holds one document.\<close>

definition demo_store :: es_store where
  "demo_store = [''wiki'' \<mapsto> [''0'' \<mapsto> \<lparr>document_text = [97]\<rparr>]]"

text \<open>
  The length that the specification gives for a ranking: the smaller of k and the number
  of documents with a similarity other than zero.
\<close>

definition rank_length_as_specified ::
  "('o \<Rightarrow> string \<Rightarrow> real list) \<Rightarrow> ('o \<Rightarrow> real list list) \<Rightarrow> 'o SparseRetrieval \<Rightarrow>
     string \<Rightarrow> int \<Rightarrow> bool" where
  "rank_length_as_specified transform toarray self query k =
     (case Sparse_get_relevant_doc transform toarray self query k of
        Inl _ \<Rightarrow> False
      | Inr (doc_score, _) \<Rightarrow>
          int (length doc_score) = min k (int (nonzero_similarity transform toarray self query)))"

text \<open>
  A vectorizer over the vocabulary apple, cherry, and retrievers over the documents
  "apple" and "cherry" and over the single document "apple". Library objects are
  matrices here, and the document matrix is its own list of rows.
\<close>

definition demo_transform :: "real list list \<Rightarrow> string \<Rightarrow> real list" where
  "demo_transform v q =
     (if q = ''apple'' then [1, 0] else if q = ''cherry'' then [0, 1] else [0, 0])"

definition demo_toarray :: "real list list \<Rightarrow> real list list" where
  "demo_toarray m = m"

definition demo_retriever :: "real list list SparseRetrieval" where
  "demo_retriever =
     \<lparr>data_path = ''data'', contexts = [[97], [99]], ids = [0, 1], tfidfv = [],
      p_embedding = Some [[1, 0], [0, 1]]\<rparr>"

definition demo_single_doc :: "real list list SparseRetrieval" where
  "demo_single_doc =
     \<lparr>data_path = ''data'', contexts = [[97]], ids = [0], tfidfv = [],
      p_embedding = Some [[1, 0]]\<rparr>"




text \<open>
  A client whose store answers the question q0 with the document a, the question q1 with
  the document b, and any other question with no hit.
\<close>

definition demo_client :: es_client where
  "demo_client idx question k =
     (if question = ''q0'' then [\<lparr>hit_id = ''a'', hit_score = 2, hit_source = \<lparr>document_text = [97]\<rparr>\<rparr>]
      else if question = ''q1'' then [\<lparr>hit_id = ''b'', hit_score = 1, hit_source = \<lparr>document_text = [98]\<rparr>\<rparr>]
      else [])"

definition demo_elastic :: ElasticRetrieval where
  "demo_elastic = \<lparr>es = demo_client, index_name = ''wiki''\<rparr>"

text \<open>The record that \<^verbatim>\<open>retrieve_split\<close> builds from an example and a hit.\<close>

definition row_of_hit :: "example \<Rightarrow> hit \<Rightarrow> split_row" where
  "row_of_hit ex h = split_tmp ex (OneId (hit_id h)) (document_text (hit_source h))"



text \<open>Two examples of a query dataset; the first has the ground-truth columns.\<close>

definition demo_example_q1 :: example where
  "demo_example_q1 =
     \<lparr>ex_question = ''q1'', ex_id = ''7'', ex_context = Some [99], ex_answers = Some [[100]]\<rparr>"

definition demo_example_q0 :: example where
  "demo_example_q0 =
     \<lparr>ex_question = ''q0'', ex_id = ''8'', ex_context = None, ex_answers = None\<rparr>"

section \<open>Normalization is idempotent\<close>

lemma is_space_32: "is_space 32" by (simp add: is_space_def)

lemma single_spaced_sub_spaces: "single_spaced (sub_spaces t)"
proof (induction t rule: sub_spaces.induct)
  case 1
  then show ?case by simp
next
  case (2 c cs)
  show ?case
  proof (cases "is_space c")
    case True
    let ?r = "dropWhile is_space cs"
    have ih: "single_spaced (sub_spaces ?r)" using 2(1) True by simp
    show ?thesis
    proof (cases ?r)
      case Nil
      have "sub_spaces (c # cs) = 32 # sub_spaces ?r" using True by simp
      then have "sub_spaces (c # cs) = [32]" by (simp only: Nil sub_spaces.simps)
      then show ?thesis by (simp add: is_space_32)
    next
      case (Cons d ds)
      then have nd: "\<not> is_space d" using hd_dropWhile[of is_space cs] by simp
      then have r: "sub_spaces ?r = d # sub_spaces ds" by (simp only: Cons sub_spaces.simps if_False)
      have "sub_spaces (c # cs) = 32 # sub_spaces ?r" using True by simp
      then have "sub_spaces (c # cs) = 32 # d # sub_spaces ds" by (simp only: r)
      moreover have "single_spaced (d # sub_spaces ds)" using ih r by simp
      ultimately show ?thesis using nd by (simp add: is_space_32)
    qed
  next
    case False
    have ih: "single_spaced (sub_spaces cs)" using 2(2) False by simp
    show ?thesis using False ih by (cases "sub_spaces cs") auto
  qed
qed

lemma sub_spaces_id: "single_spaced t \<Longrightarrow> sub_spaces t = t"
  by (induction t rule: single_spaced.induct) (auto split: if_splits)

lemma single_spaced_tl: "single_spaced (c # cs) \<Longrightarrow> single_spaced cs"
  by (cases cs) (auto split: if_splits)

lemma single_spaced_suffix: "single_spaced (xs @ ys) \<Longrightarrow> single_spaced ys"
  by (induction xs) (auto dest: single_spaced_tl)

lemma single_spaced_hd: "single_spaced (c # cs) \<Longrightarrow> is_space c \<Longrightarrow> c = 32"
  by (cases cs) (auto split: if_splits)

lemma single_spaced_prefix: "single_spaced (xs @ ys) \<Longrightarrow> single_spaced xs"
proof (induction xs rule: single_spaced.induct)
  case 1
  then show ?case by simp
next
  case (2 c)
  then show ?case using single_spaced_hd[of c ys] by auto
next
  case (3 a b cs)
  then show ?case by (auto split: if_splits)
qed

lemma single_spaced_strip: "single_spaced t \<Longrightarrow> single_spaced (strip t)"
proof -
  assume a: "single_spaced t"
  let ?u = "dropWhile is_space t"
  have "t = takeWhile is_space t @ ?u" by simp
  then have u: "single_spaced ?u" using a single_spaced_suffix by metis
  have "?u = rev (dropWhile is_space (rev ?u)) @ rev (takeWhile is_space (rev ?u))"
    by (metis rev_append rev_rev_ident takeWhile_dropWhile_id)
  then show ?thesis unfolding strip_def using u single_spaced_prefix by metis
qed

lemma strip_fixed:
  assumes "t = [] \<or> (\<not> is_space (hd t) \<and> \<not> is_space (last t))"
  shows "strip t = t"
proof (cases "t = []")
  case True then show ?thesis by (simp add: strip_def)
next
  case False
  then have h: "\<not> is_space (hd t)" and l: "\<not> is_space (last t)" using assms by auto
  have 1: "dropWhile is_space t = t" using False h by (cases t) auto
  have "hd (rev t) = last t" using False by (simp add: hd_rev)
  then have 2: "dropWhile is_space (rev t) = rev t" using l by (simp add: dropWhile_eq_self_iff)
  show ?thesis by (simp add: strip_def 1 2)
qed

lemma strip_ends: "strip t = [] \<or> (\<not> is_space (hd (strip t)) \<and> \<not> is_space (last (strip t)))"
proof (cases "strip t = []")
  case True then show ?thesis by simp
next
  case False
  let ?u = "dropWhile is_space t"
  let ?w = "dropWhile is_space (rev ?u)"
  have s: "strip t = rev ?w" by (simp add: strip_def)
  have wne: "?w \<noteq> []" using False s by simp
  then have "\<not> is_space (hd ?w)" using hd_dropWhile by metis
  then have l: "\<not> is_space (last (strip t))" using s wne by (simp add: last_rev)
  have une: "?u \<noteq> []" using wne by (cases "?u") simp_all
  then have hu: "\<not> is_space (hd ?u)" using hd_dropWhile by metis
  have "?u = rev ?w @ rev (takeWhile is_space (rev ?u))"
    by (metis rev_append rev_rev_ident takeWhile_dropWhile_id)
  then have "hd ?u = hd (rev ?w)" using wne by (metis hd_append2 rev_is_Nil_conv)
  then show ?thesis using hu l s by simp
qed

lemma strip_idem: "strip (strip t) = strip t"
  using strip_fixed[OF strip_ends] .


lemma set_sub_spaces: "c \<in> set (sub_spaces t) \<Longrightarrow> c = 32 \<or> (c \<in> set t \<and> \<not> is_space c)"
proof (induction t rule: sub_spaces.induct)
  case 1
  then show ?case by simp
next
  case (2 d ds)
  show ?case
  proof (cases "is_space d")
    case True
    then have "c = 32 \<or> c \<in> set (sub_spaces (dropWhile is_space ds))" using 2(3) by simp
    then show ?thesis using 2(1) True set_dropWhileD[of c is_space ds] by auto
  next
    case False
    then have "c = d \<or> c \<in> set (sub_spaces ds)" using 2(3) by simp
    then show ?thesis using 2(2) False by auto
  qed
qed

lemma set_strip: "c \<in> set (strip t) \<Longrightarrow> c \<in> set t"
proof -
  assume "c \<in> set (strip t)"
  then have "c \<in> set (dropWhile is_space (rev (dropWhile is_space t)))"
    by (simp add: strip_def)
  then have "c \<in> set (rev (dropWhile is_space t))" by (rule set_dropWhileD)
  then have "c \<in> set (dropWhile is_space t)" by simp
  then show ?thesis by (rule set_dropWhileD)
qed

lemma allowed_32: "allowed 32" by (simp add: allowed_def is_space_def)
lemma is_space_10: "is_space 10" by (simp add: is_space_def)
lemma not_allowed_92: "\<not> allowed 92" by (simp add: allowed_def is_space_def)
lemma not_allowed_35: "\<not> allowed 35" by (simp add: allowed_def is_space_def)

lemma preprocess_chars:
  assumes "c \<in> set (preprocess t)"
  shows "allowed c \<and> c \<noteq> 10 \<and> c \<noteq> 92 \<and> c \<noteq> 35"
proof -
  from assms have "c \<in> set (sub_spaces (sub_disallowed (sub_hash (sub_backslash_n (sub_newline t)))))"
    unfolding preprocess_def by (rule set_strip)
  then have "c = 32 \<or> (allowed c \<and> \<not> is_space c)"
    using set_sub_spaces by (fastforce simp: sub_disallowed_def)
  then show ?thesis
  proof
    assume "c = 32"
    then show ?thesis using allowed_32 by simp
  next
    assume "allowed c \<and> \<not> is_space c"
    then show ?thesis using is_space_10 not_allowed_92 not_allowed_35 by blast
  qed
qed

lemma sub_newline_id: "10 \<notin> set t \<Longrightarrow> sub_newline t = t"
  unfolding sub_newline_def by (induction t) auto

lemma sub_hash_id: "35 \<notin> set t \<Longrightarrow> sub_hash t = t"
  unfolding sub_hash_def by (induction t) auto

lemma sub_backslash_n_id: "92 \<notin> set t \<Longrightarrow> sub_backslash_n t = t"
  by (induction t rule: sub_backslash_n.induct) auto

lemma sub_disallowed_id: "\<forall>c\<in>set t. allowed c \<Longrightarrow> sub_disallowed t = t"
  unfolding sub_disallowed_def by simp

lemma single_spaced_preprocess: "single_spaced (preprocess t)"
  unfolding preprocess_def by (rule single_spaced_strip) (rule single_spaced_sub_spaces)

text \<open>
  Claim C9. Normalizing a text twice gives the same text as normalizing it once: for every
  string s, \<open>preprocess (preprocess s) = preprocess s\<close>.
\<close>

theorem preprocess_idempotent: "preprocess (preprocess s) = preprocess s"
proof -
  let ?p = "preprocess s"
  have chars: "\<forall>c\<in>set ?p. allowed c \<and> c \<noteq> 10 \<and> c \<noteq> 92 \<and> c \<noteq> 35"
    using preprocess_chars by blast
  have 1: "sub_newline ?p = ?p" using chars by (intro sub_newline_id) blast
  have 2: "sub_backslash_n ?p = ?p" using chars by (intro sub_backslash_n_id) blast
  have 3: "sub_hash ?p = ?p" using chars by (intro sub_hash_id) blast
  have 4: "sub_disallowed ?p = ?p" using chars by (intro sub_disallowed_id) blast
  have 5: "sub_spaces ?p = ?p" by (rule sub_spaces_id) (rule single_spaced_preprocess)
  have 6: "strip ?p = ?p" unfolding preprocess_def by (rule strip_idem)
  have "preprocess ?p = strip (sub_spaces (sub_disallowed (sub_hash (sub_backslash_n (sub_newline ?p)))))"
    by (simp only: preprocess_def)
  also have "\<dots> = strip ?p" by (simp only: 1 2 3 4 5)
  also have "\<dots> = ?p" by (rule 6)
  finally show ?thesis .
qed

section \<open>The corpus loader removes duplicates before it normalizes\<close>

lemma set_first_seen: "set (first_seen xs) = set xs"
  by (induction xs rule: first_seen.induct) auto

lemma distinct_first_seen: "distinct (first_seen xs)"
  by (induction xs rule: first_seen.induct) (auto simp: set_first_seen)

lemma fold_fromkeys:
  "fold (\<lambda>k d. if k \<in> set d then d else d @ [k]) ks d =
     d @ first_seen (filter (\<lambda>k. k \<notin> set d) ks)"
proof (induction ks arbitrary: d)
  case Nil
  then show ?case by simp
next
  case (Cons k ks)
  show ?case
  proof (cases "k \<in> set d")
    case True
    then show ?thesis using Cons.IH[of d] by simp
  next
    case False
    have "removeAll k (filter (\<lambda>x. x \<notin> set d) ks) = filter (\<lambda>x. x \<notin> set (d @ [k])) ks"
      by (induction ks) auto
    then show ?thesis using False Cons.IH[of "d @ [k]"] by simp
  qed
qed

lemma dict_fromkeys_first_seen: "dict_fromkeys ks = first_seen ks"
  by (simp add: dict_fromkeys_def fold_fromkeys)

lemma map_over_indices: "map (\<lambda>i. f (ts ! i)) [0..<length ts] = map f ts"
  by (rule nth_equalityI) simp_all

lemma load_json_texts:
  "map document_text (load_json wiki) = map preprocess (first_seen (map snd wiki))"
  by (simp add: load_json_def Let_def dict_fromkeys_first_seen o_def
      map_over_indices[of "\<lambda>t. \<lparr>document_text = t\<rparr>"])

text \<open>
  Claim C6, as the code has it. The loader removes duplicates among the raw texts, before
  any normalization, and then normalizes each text that is left: the corpus is the
  normalization of every distinct raw text, once per raw text, in the order of first
  appearance. The retriever's constructor keeps the same distinct raw texts, not
  normalized.
\<close>

theorem load_json_dedups_raw_text:
  "map document_text (load_json wiki) = map preprocess (first_seen (map snd wiki)) \<and>
   distinct (first_seen (map snd wiki)) \<and>
   set (first_seen (map snd wiki)) = set (map snd wiki) \<and>
   contexts (SparseRetrieval_init vectorizer path wiki) = first_seen (map snd wiki)"
  by (simp add: load_json_texts distinct_first_seen set_first_seen SparseRetrieval_init_def
      Let_def dict_fromkeys_first_seen)

text \<open>
  Two raw texts that differ only by a trailing space normalize to the same text, and the
  loaded corpus holds that text twice, where the specification's corpus holds it once.
\<close>

theorem load_json_dedup_counterexample:
  "map document_text (load_json [(''0'', [97]), (''1'', [97, 32])]) = [[97], [97]] \<and>
   spec_corpus [(''0'', [97]), (''1'', [97, 32])] = [[97]] \<and>
   \<not> distinct (map document_text (load_json [(''0'', [97]), (''1'', [97, 32])]))"
  by (simp add: load_json_texts spec_corpus_def preprocess_def strip_def sub_disallowed_def
      sub_hash_def sub_newline_def allowed_def is_space_def)

section \<open>Deleting one document\<close>

text \<open>
  Claim C8. \<open>delete_doc\<close> fetches the document before it asks whether the document
  exists. For an id that the index does not hold the fetch raises, the result is that
  error, and the branch for a missing document is never the one that returns: no call
  returns the store unchanged. For an id that the index holds, the document is deleted
  and its text is returned.
\<close>

theorem delete_doc_fetches_first:
  fixes es :: es_store and index_name :: string
  shows
  "(\<not> es_exists es index_name doc_id \<longrightarrow> delete_doc es index_name doc_id = Inl NotFoundError) \<and>
   (es index_name = Some docs \<and> docs doc_id = Some doc \<longrightarrow>
      delete_doc es index_name doc_id =
        Inr (es(index_name \<mapsto> docs(doc_id := None)), document_text doc)) \<and>
   delete_doc es index_name doc_id \<noteq> Inr (es, t)"
proof (intro conjI impI)
  assume "\<not> es_exists es index_name doc_id"
  then show "delete_doc es index_name doc_id = Inl NotFoundError"
    by (auto simp: delete_doc_def es_exists_def es_get_def split: option.splits)
next
  assume "es index_name = Some docs \<and> docs doc_id = Some doc"
  then show "delete_doc es index_name doc_id =
        Inr (es(index_name \<mapsto> docs(doc_id := None)), document_text doc)"
    by (simp add: delete_doc_def es_exists_def es_get_def es_delete_def)
next
  show "delete_doc es index_name doc_id \<noteq> Inr (es, t)"
  proof (cases "es index_name")
    case None
    then show ?thesis by (simp add: delete_doc_def es_get_def)
  next
    case (Some docs)
    show ?thesis
    proof (cases "docs doc_id")
      case None
      then show ?thesis using Some by (simp add: delete_doc_def es_get_def)
    next
      case (Some doc)
      have "es(index_name \<mapsto> docs(doc_id := None)) \<noteq> es"
      proof
        assume "es(index_name \<mapsto> docs(doc_id := None)) = es"
        then have "(es(index_name \<mapsto> docs(doc_id := None))) index_name = es index_name" by simp
        then have "docs(doc_id := None) = docs" using \<open>es index_name = Some docs\<close> by simp
        then have "(docs(doc_id := None)) doc_id = docs doc_id" by simp
        then show False using Some by simp
      qed
      then show ?thesis using Some \<open>es index_name = Some docs\<close>
        by (simp add: delete_doc_def es_exists_def es_get_def es_delete_def)
    qed
  qed
qed

theorem delete_doc_fetches_first_witness:
  "\<not> es_exists demo_store ''wiki'' ''7'' \<and> delete_doc demo_store ''wiki'' ''7'' = Inl NotFoundError \<and>
   demo_store ''wiki'' = Some [''0'' \<mapsto> \<lparr>document_text = [97]\<rparr>] \<and>
   delete_doc demo_store ''wiki'' ''0'' =
     Inr (demo_store(''wiki'' \<mapsto> [''0'' \<mapsto> \<lparr>document_text = [97]\<rparr>](''0'' := None)), [97])"
  using delete_doc_fetches_first[of demo_store "''wiki''" "''7''" "[''0'' \<mapsto> \<lparr>document_text = [97]\<rparr>]" "\<lparr>document_text = [97]\<rparr>"]
        delete_doc_fetches_first[of demo_store "''wiki''" "''0''" "[''0'' \<mapsto> \<lparr>document_text = [97]\<rparr>]" "\<lparr>document_text = [97]\<rparr>"]
  by (simp add: demo_store_def es_exists_def)

section \<open>Ranking with the vector strategy\<close>

lemma comprehension_all_ok:
  "(\<And>x. x \<in> set xs \<Longrightarrow> f x = Inr (g x)) \<Longrightarrow> comprehension f xs = Inr (map g xs)"
  by (induction xs) simp_all

lemma length_argsort: "length (argsort xs) = length xs"
  by (simp add: argsort_def)

lemma set_argsort: "set (argsort xs) = {0..<length xs}"
  by (simp add: argsort_def)

lemma sorted_argsort: "sorted (map (\<lambda>i. xs ! i) (argsort xs))"
  unfolding argsort_def by (rule sorted_sort_key)

lemma np_index_vector:
  "set idx \<subseteq> {0..<length xs} \<Longrightarrow> np_index (Arr1 xs) idx = Inr (map (\<lambda>i. xs ! i) idx)"
  unfolding np_index_def by (simp add: comprehension_all_ok[where g = "\<lambda>i. xs ! i"] py_get_def subset_iff)

lemma ranked_scores:
  "np_index (Arr1 row) (rev (argsort row)) = Inr (map (\<lambda>i. row ! i) (rev (argsort row)))"
  by (rule np_index_vector) (simp add: set_argsort)

lemma non_increasing_ranked: "non_increasing (map (\<lambda>i. row ! i) (rev (argsort row)))"
  by (simp add: non_increasing_def rev_map[symmetric] sorted_argsort)

lemma non_increasing_take: "non_increasing xs \<Longrightarrow> non_increasing (take n xs)"
  unfolding non_increasing_def by (simp add: rev_take sorted_wrt_drop)

lemma non_increasing_py_take: "non_increasing xs \<Longrightarrow> non_increasing (py_take k xs)"
  by (simp add: py_take_def non_increasing_take)

lemma length_py_take:
  "length (py_take k xs) = (if 0 \<le> k then min (nat k) (length xs) else length xs - nat (- k))"
  by (simp add: py_take_def min.commute)

lemma squeeze_vector: "length row \<noteq> 1 \<Longrightarrow> squeeze row = Arr1 row"
  by (cases row rule: list.exhaust; cases "tl row") (auto simp: squeeze_def split: list.splits)

lemma Sparse_get_relevant_doc_eq:
  assumes "np_sum [transform (tfidfv self) query] \<noteq> 0"
    and "p_embedding self = Some emb"
    and "length (toarray emb) \<noteq> 1"
  shows "Sparse_get_relevant_doc transform toarray self query k =
     (let row = map (dot (transform (tfidfv self) query)) (toarray emb)
      in Inr (py_take k (map (\<lambda>i. row ! i) (rev (argsort row))), py_take k (rev (argsort row))))"
proof -
  let ?row = "map (dot (transform (tfidfv self) query)) (toarray emb)"
  have "length ?row \<noteq> 1" using assms(3) by simp
  then have sq: "squeeze ?row = Arr1 ?row" by (rule squeeze_vector)
  show ?thesis
    using assms(1,2)
    by (simp add: Sparse_get_relevant_doc_def matmul_T_def Let_def sq np_argsort_def ranked_scores
        del: map_map)
qed

text \<open>
  Claim C2, as the code has it. For a query that passes the assertion, with the embedding
  built and a corpus that does not consist of exactly one document, the ranking succeeds,
  its scores are in non-increasing order, and it ranks all documents, those with
  similarity zero included: its length is the smaller of k and the number of documents
  (for a negative k, the number of documents less \<open>-k\<close>, as the slice gives).
\<close>

theorem Sparse_get_relevant_doc_ranks_all_documents:
  assumes "np_sum [transform (tfidfv self) query] \<noteq> 0"
    and "p_embedding self = Some emb"
    and "length (toarray emb) \<noteq> 1"
  shows "\<exists>doc_score doc_indices.
     Sparse_get_relevant_doc transform toarray self query k = Inr (doc_score, doc_indices) \<and>
     non_increasing doc_score \<and>
     length doc_score =
       (if 0 \<le> k then min (nat k) (length (toarray emb)) else length (toarray emb) - nat (- k)) \<and>
     length doc_indices = length doc_score"
proof -
  let ?row = "map (dot (transform (tfidfv self) query)) (toarray emb)"
  let ?scores = "py_take k (map (\<lambda>i. ?row ! i) (rev (argsort ?row)))"
  let ?indices = "py_take k (rev (argsort ?row))"
  have "Sparse_get_relevant_doc transform toarray self query k = Inr (?scores, ?indices)"
    using Sparse_get_relevant_doc_eq[of transform self query emb toarray k] assms
    by (simp add: Let_def)
  moreover have "non_increasing ?scores"
    by (rule non_increasing_py_take) (rule non_increasing_ranked)
  moreover have "length ?scores =
       (if 0 \<le> k then min (nat k) (length (toarray emb)) else length (toarray emb) - nat (- k))"
    by (simp add: length_py_take length_argsort)
  moreover have "length ?indices = length ?scores"
    by (simp add: length_py_take length_argsort)
  ultimately show ?thesis by blast
qed


theorem Sparse_get_relevant_doc_ranks_all_documents_witness:
  "np_sum [demo_transform (tfidfv demo_retriever) ''apple''] \<noteq> 0 \<and>
   p_embedding demo_retriever = Some [[1, 0], [0, 1]] \<and>
   length (demo_toarray [[1, 0], [0, 1]]) \<noteq> 1 \<and>
   (\<exists>doc_score doc_indices.
      Sparse_get_relevant_doc demo_transform demo_toarray demo_retriever ''apple'' 5 =
        Inr (doc_score, doc_indices) \<and>
      non_increasing doc_score \<and> length doc_score = 2 \<and> length doc_indices = length doc_score)"
  using Sparse_get_relevant_doc_ranks_all_documents
    [of demo_transform demo_retriever "''apple''" "[[1, 0], [0, 1]]" demo_toarray 5]
  by (simp add: demo_transform_def demo_retriever_def demo_toarray_def np_sum_def numeral_2_eq_2)

text \<open>
  On the documents "apple" and "cherry" the query "apple" with k = 2 gets both documents,
  the second with score zero; one document has a similarity other than zero, so the
  specified length is one.
\<close>

lemma demo_rank_apple:
  "Sparse_get_relevant_doc demo_transform demo_toarray demo_retriever ''apple'' 2 = Inr ([1, 0], [0, 1])"
  by (simp add: Sparse_get_relevant_doc_def demo_transform_def demo_retriever_def demo_toarray_def
      np_sum_def matmul_T_def dot_def squeeze_def np_argsort_def argsort_def np_index_def
      py_get_def py_take_def upt_rec[of 0] upt_rec[of 1] upt_rec[of 2])

theorem Sparse_get_relevant_doc_length_counterexample:
  "Sparse_get_relevant_doc demo_transform demo_toarray demo_retriever ''apple'' 2 = Inr ([1, 0], [0, 1]) \<and>
   nonzero_similarity demo_transform demo_toarray demo_retriever ''apple'' = 1 \<and>
   \<not> rank_length_as_specified demo_transform demo_toarray demo_retriever ''apple'' 2"
proof -
  have n: "nonzero_similarity demo_transform demo_toarray demo_retriever ''apple'' = 1"
    by (simp add: nonzero_similarity_def demo_transform_def demo_retriever_def demo_toarray_def dot_def)
  show ?thesis by (simp add: demo_rank_apple n rank_length_as_specified_def)
qed

subsection \<open>The assertion on the query vector\<close>

lemma sum_list_zeros: "\<forall>x\<in>set xs. x = (0::real) \<Longrightarrow> sum_list xs = 0"
  by (induction xs) simp_all

text \<open>
  Claim C3. A query whose vector is all zeros, as the vector of a query with no token of
  the vocabulary is, fails the assertion of the ranking: the result is the assertion
  error (the specification's EmptyQueryVector), whatever k and the embedding are.
\<close>

theorem Sparse_get_relevant_doc_empty_query:
  assumes "\<forall>x\<in>set (transform (tfidfv self) query). x = 0"
  shows "Sparse_get_relevant_doc transform toarray self query k = Inl AssertionError"
proof -
  have "sum_list (transform (tfidfv self) query) = 0"
    using assms by (rule sum_list_zeros)
  then show ?thesis by (simp add: Sparse_get_relevant_doc_def np_sum_def)
qed

theorem Sparse_get_relevant_doc_empty_query_witness:
  "demo_transform (tfidfv demo_retriever) ''banana'' = [0, 0] \<and>
   Sparse_get_relevant_doc demo_transform demo_toarray demo_retriever ''banana'' 1 = Inl AssertionError"
  using Sparse_get_relevant_doc_empty_query[of demo_transform demo_retriever "''banana''" demo_toarray 1]
  by (simp add: demo_transform_def)

subsection \<open>One query through the bulk operation\<close>

lemma Sparse_get_relevant_doc_bulk_one:
  assumes "np_sum [transform (tfidfv self) query] \<noteq> 0"
    and "p_embedding self = Some emb"
  shows "Sparse_get_relevant_doc_bulk transform toarray self [query] k =
     (let row = map (dot (transform (tfidfv self) query)) (toarray emb)
      in Inr ([py_take k (map (\<lambda>i. row ! i) (rev (argsort row)))], [py_take k (rev (argsort row))]))"
  using assms
  by (simp add: Sparse_get_relevant_doc_bulk_def matmul_T_def Let_def ranked_scores np_sum_def
      del: map_map)

text \<open>
  Unless the corpus has exactly one document, the bulk operation on a one-element list
  returns the ranking of the single-query operation, wrapped in one-element lists.
\<close>

lemma bulk_agrees_with_single:
  assumes "np_sum [transform (tfidfv self) query] \<noteq> 0"
    and "p_embedding self = Some emb"
    and "length (toarray emb) \<noteq> 1"
  shows "Sparse_get_relevant_doc_bulk transform toarray self [query] k =
     map_sum id (\<lambda>(doc_score, doc_indices). ([doc_score], [doc_indices]))
       (Sparse_get_relevant_doc transform toarray self query k)"
  using Sparse_get_relevant_doc_bulk_one[of transform self query emb toarray k]
        Sparse_get_relevant_doc_eq[of transform self query emb toarray k] assms
  by (simp add: Let_def)

text \<open>
  Claim C5, at a corpus of one document. The single-query operation squeezes the one by
  one result to a zero-dimensional array and raises on indexing it, while the bulk
  operation indexes the row and returns the ranking: the two disagree.
\<close>

theorem single_document_rank_raises:
  "np_sum [demo_transform (tfidfv demo_single_doc) ''apple''] \<noteq> 0 \<and>
   Sparse_get_relevant_doc demo_transform demo_toarray demo_single_doc ''apple'' 1 = Inl IndexError \<and>
   Sparse_get_relevant_doc_bulk demo_transform demo_toarray demo_single_doc [''apple''] 1 =
     Inr ([[1]], [[0]])"
  by (simp add: Sparse_get_relevant_doc_def Sparse_get_relevant_doc_bulk_def demo_transform_def
      demo_single_doc_def demo_toarray_def
      np_sum_def matmul_T_def dot_def squeeze_def np_argsort_def argsort_def np_index_def
      py_get_def py_take_def)

section \<open>Building or loading the embedding\<close>





section \<open>The remote-index strategy\<close>

lemma comprehension_append:
  "comprehension f (xs @ ys) =
     (case comprehension f xs of
        Inl e \<Rightarrow> Inl e
      | Inr a \<Rightarrow> (case comprehension f ys of Inl e \<Rightarrow> Inl e | Inr b \<Rightarrow> Inr (a @ b)))"
  by (induction xs) (auto split: sum.splits)

lemma comprehension_upto:
  "comprehension (\<lambda>i. py_get xs i) (map int [0..<m]) =
     (if m \<le> length xs then Inr (take m xs) else Inl IndexError)"
proof (induction m)
  case 0
  then show ?case by simp
next
  case (Suc m)
  show ?case
  proof (cases "m < length xs")
    case True
    then show ?thesis using Suc
      by (simp add: comprehension_append py_get_def take_Suc_conv_app_nth)
  next
    case False
    then show ?thesis using Suc
      by (auto simp add: comprehension_append py_get_def)
  qed
qed

lemma comprehension_py_range:
  "comprehension (\<lambda>i. py_get xs i) (py_range n) =
     (if n \<le> int (length xs) then Inr (take (nat n) xs) else Inl IndexError)"
  unfolding py_range_def comprehension_upto by auto

lemma hits_fold:
  "fold (\<lambda>hit (doc_score, doc_index). (doc_score @ [hit_score hit], doc_index @ [g hit])) docs (a, b) =
     (a @ map hit_score docs, b @ map g docs)"
  by (induction docs arbitrary: a b) simp_all

lemma Elastic_get_relevant_doc_eq:
  "Elastic_get_relevant_doc self query k =
     (let docs = es_search (es self) (index_name self) query k
      in (map hit_score docs, map hit_id docs, docs))"
  by (simp add: Elastic_get_relevant_doc_def Let_def hits_fold[where g = hit_id])

lemma Elastic_retrieve_eq:
  "Elastic_retrieve self query topk =
     (let docs = es_search (es self) (index_name self) query topk
      in if topk \<le> int (length docs) then Inr (map hit_score docs, take (nat topk) (map hit_id docs))
         else Inl IndexError)"
  by (simp add: Elastic_retrieve_def Elastic_get_relevant_doc_eq Let_def comprehension_py_range)

text \<open>
  Claim C4, at a query without a match. The store returns no hit, the single-query
  retrieval returns empty lists, and \<open>retrieve\<close> with the default \<open>topk = 1\<close> raises
  an index error: its return statement reads \<open>topk\<close> ids, however many there are.
\<close>

theorem Elastic_retrieve_no_match_raises:
  "es_search (es demo_elastic) (index_name demo_elastic) ''zebra'' 1 = [] \<and>
   Elastic_get_relevant_doc demo_elastic ''zebra'' 1 = ([], [], []) \<and>
   Elastic_retrieve demo_elastic ''zebra'' 1 = Inl IndexError"
  by (simp add: Elastic_retrieve_eq Elastic_get_relevant_doc_eq es_search_def demo_elastic_def
      demo_client_def)

lemma bulk_fold:
  "fold (\<lambda>query (total_docs, doc_scores, doc_indices).
            let doc_index = [];
                docs = S query;
                (doc_score, doc_indices) =
                   fold (\<lambda>hit (doc_score, doc_indices).
                           (doc_score @ [hit_score hit], doc_indices @ [OneId (hit_id hit)]))
                        docs ([], doc_indices)
            in (total_docs @ [docs], doc_scores @ [doc_score], doc_indices @ [IdList doc_index]))
        queries (td, ds, di) =
     (td @ map S queries, ds @ map (\<lambda>q. map hit_score (S q)) queries,
      di @ concat (map (\<lambda>q. map (\<lambda>h. OneId (hit_id h)) (S q) @ [IdList []]) queries))"
  by (induction queries arbitrary: td ds di)
     (simp_all add: Let_def hits_fold[where g = "\<lambda>h. OneId (hit_id h)"])

lemma Elastic_get_relevant_doc_bulk_eq:
  "Elastic_get_relevant_doc_bulk self queries k =
     (map (\<lambda>q. map hit_score (es_search (es self) (index_name self) q k)) queries,
      concat (map (\<lambda>q. map (\<lambda>h. OneId (hit_id h)) (es_search (es self) (index_name self) q k) @ [IdList []])
                queries),
      map (\<lambda>q. es_search (es self) (index_name self) q k) queries)"
  unfolding Elastic_get_relevant_doc_bulk_def bulk_fold by simp

text \<open>
  Claim C1, at two queries with one hit each. The bulk operation appends every id to the
  shared list and an empty list after each query: the returned ids are a, the empty list,
  b, the empty list, and the element at index 1 is empty although query 1 has the hit b.
\<close>

theorem Elastic_bulk_ids_not_aligned:
  "es_search (es demo_elastic) (index_name demo_elastic) ''q1'' 1 =
     [\<lparr>hit_id = ''b'', hit_score = 1, hit_source = \<lparr>document_text = [98]\<rparr>\<rparr>] \<and>
   fst (snd (Elastic_get_relevant_doc_bulk demo_elastic [''q0'', ''q1''] 1)) =
     [OneId ''a'', IdList [], OneId ''b'', IdList []] \<and>
   fst (snd (Elastic_get_relevant_doc_bulk demo_elastic [''q0'', ''q1''] 1)) ! 1 = IdList []"
  by (simp add: Elastic_get_relevant_doc_bulk_eq es_search_def demo_elastic_def demo_client_def)


lemma comprehension_map_sum:
  "comprehension (\<lambda>i. map_sum id g (f i)) xs = map_sum id (map g) (comprehension f xs)"
  by (induction xs) (auto split: sum.splits)

lemma retrieved_context_eq:
  "comprehension (\<lambda>i. map_sum id g (py_get hits i)) (py_range (min topk (int (length hits)))) =
     Inr (map g (take (nat topk) hits))"
proof -
  have "take (nat (min topk (int (length hits)))) hits = take (nat topk) hits"
    by (cases "topk \<le> int (length hits)") (simp_all add: min_def)
  then show ?thesis
    by (simp add: comprehension_map_sum comprehension_py_range)
qed

lemma py_get_first: "py_get (x # xs) 0 = Inr x"
  by (simp add: py_get_def)

lemma take_min_length: "take (min (length xs) n) xs = take n xs"
  by (cases "n \<le> length xs") (simp_all add: min_def)

lemma split_rows_eq:
  assumes "length ctxs \<le> length hits"
    and "ctxs = map (\<lambda>h. document_text (hit_source h)) (take (length ctxs) hits)"
  shows "comprehension
           (\<lambda>(i, ctx). map_sum id (\<lambda>doc_id. split_tmp ex doc_id ctx)
                         (py_get (map (\<lambda>h. OneId (hit_id h)) hits @ tail) (int i)))
           (enumerate 0 ctxs) =
         Inr (map (row_of_hit ex) (take (length ctxs) hits))"
proof -
  let ?g = "\<lambda>(i, ctx). split_tmp ex (OneId (hit_id (hits ! i))) ctx"
  have "comprehension
           (\<lambda>(i, ctx). map_sum id (\<lambda>doc_id. split_tmp ex doc_id ctx)
                         (py_get (map (\<lambda>h. OneId (hit_id h)) hits @ tail) (int i)))
           (enumerate 0 ctxs) = Inr (map ?g (enumerate 0 ctxs))"
  proof (rule comprehension_all_ok)
    fix x assume "x \<in> set (enumerate 0 ctxs)"
    then have "fst x < length ctxs" by (auto simp: in_set_enumerate_eq)
    then have "fst x < length hits" using assms(1) by simp
    then show "(case x of (i, ctx) \<Rightarrow> map_sum id (\<lambda>doc_id. split_tmp ex doc_id ctx)
                         (py_get (map (\<lambda>h. OneId (hit_id h)) hits @ tail) (int i))) = Inr (?g x)"
      by (cases x) (simp add: py_get_def nth_append)
  qed
  moreover have "map ?g (enumerate 0 ctxs) = map (row_of_hit ex) (take (length ctxs) hits)"
  proof (rule nth_equalityI)
    show "length (map ?g (enumerate 0 ctxs)) = length (map (row_of_hit ex) (take (length ctxs) hits))"
      using assms(1) by simp
  next
    fix i assume "i < length (map ?g (enumerate 0 ctxs))"
    then have i: "i < length ctxs" by simp
    then have "ctxs ! i = document_text (hit_source (hits ! i))"
      using assms by (metis length_map nth_map nth_take)
    then show "map ?g (enumerate 0 ctxs) ! i = map (row_of_hit ex) (take (length ctxs) hits) ! i"
      using i assms(1) by (simp add: nth_enumerate_eq row_of_hit_def)
  qed
  ultimately show ?thesis by simp
qed

lemma retrieve_split_head:
  "Elastic_retrieve_split self (ex # others) topk =
     Inr (Some (map (row_of_hit ex)
                  (take (nat topk) (es_search (es self) (index_name self) (ex_question ex) topk))))"
proof -
  let ?hits = "es_search (es self) (index_name self) (ex_question ex) topk"
  let ?ctxs = "map (\<lambda>h. document_text (hit_source h)) (take (nat topk) ?hits)"
  have len: "length ?ctxs \<le> length ?hits" by simp
  have tk: "take (length ?ctxs) ?hits = take (nat topk) ?hits" by (simp add: take_min_length)
  have ctxs: "?ctxs = map (\<lambda>h. document_text (hit_source h)) (take (length ?ctxs) ?hits)"
    by (simp only: tk)
  have rows: "comprehension
         (\<lambda>(i, ctx). map_sum id (\<lambda>doc_id. split_tmp ex doc_id ctx)
                       (py_get (map (\<lambda>h. OneId (hit_id h)) ?hits @ tail') (int i)))
         (enumerate 0 ?ctxs) = Inr (map (row_of_hit ex) (take (nat topk) ?hits))" for tail'
    using split_rows_eq[OF len ctxs, of ex tail'] by (simp only: tk)
  show ?thesis
    by (simp add: Elastic_retrieve_split_def Elastic_get_relevant_doc_bulk_eq py_get_first
        retrieved_context_eq rows del: map_map)
qed

lemma row_of_hit_fields:
  "row_of_hit ex h =
     \<lparr>row_question = ex_question ex,
      row_id = OneId (hit_id h),
      row_context_id = OneId (hit_id h),
      row_context = document_text (hit_source h),
      row_original_context =
        (if ex_context ex \<noteq> None \<and> ex_answers ex \<noteq> None then ex_context ex else None),
      row_answers =
        (if ex_context ex \<noteq> None \<and> ex_answers ex \<noteq> None then ex_answers ex else None)\<rparr>"
  by (simp add: row_of_hit_def split_tmp_def Let_def)

text \<open>
  Claim C10. On a dataset of one or more examples, \<open>retrieve_split\<close> returns from the
  first pass of its loop. The table holds one record per retrieved context of the first
  example, for at most \<open>topk\<close> of its hits and in their order: the record has the first
  example's question, the hit's id as id and as context id, the hit's document text as
  context, and the first example's ground-truth context and answers when the example has
  both. It is the table of the dataset that holds the first example alone, whatever
  examples follow.
\<close>

theorem retrieve_split_first_query_only:
  "Elastic_retrieve_split self (ex # rest) topk =
     Inr (Some (map (\<lambda>h. \<lparr>row_question = ex_question ex,
                           row_id = OneId (hit_id h),
                           row_context_id = OneId (hit_id h),
                           row_context = document_text (hit_source h),
                           row_original_context =
                             (if ex_context ex \<noteq> None \<and> ex_answers ex \<noteq> None
                              then ex_context ex else None),
                           row_answers =
                             (if ex_context ex \<noteq> None \<and> ex_answers ex \<noteq> None
                              then ex_answers ex else None)\<rparr>)
                  (take (nat topk) (es_search (es self) (index_name self) (ex_question ex) topk)))) \<and>
   Elastic_retrieve_split self (ex # rest) topk = Elastic_retrieve_split self [ex] topk"
  by (simp add: retrieve_split_head row_of_hit_fields)

text \<open>
  An instance: the dataset asks q1 and then q0, and the store has the hit b for q1. The
  table has the one record of q1 and nothing of q0.
\<close>

lemma retrieve_split_demo:
  "Elastic_retrieve_split demo_elastic [demo_example_q1, demo_example_q0] 3 =
     Inr (Some [\<lparr>row_question = ''q1'', row_id = OneId ''b'', row_context_id = OneId ''b'',
                 row_context = [98], row_original_context = Some [99],
                 row_answers = Some [[100]]\<rparr>])"
  by (simp add: retrieve_split_head row_of_hit_fields es_search_def demo_elastic_def
      demo_client_def demo_example_q1_def)

end
